theory Spec2Isabelle
  imports Main "HOL-Library.Word" "HOL-Library.Sublist"
begin

section \<open>JavaScript strings\<close>

text \<open>
  A JavaScript string is a sequence of 16-bit code units. String literals of the source
  are written with \<open>js\<close>; a code unit outside ASCII is written as its number
  (\<open>0xF3\<close> is the letter o with acute accent, \<open>0x2022\<close> the bullet).
\<close>

type_synonym jschar = "16 word"
type_synonym jsstring = "jschar list"

definition js :: "string \<Rightarrow> jsstring" where
  "js s = map of_char s"

text \<open>
  The code units removed by \<open>String.prototype.trim\<close> and matched by the regular
  expression class \<open>\s\<close>: ECMAScript's WhiteSpace and LineTerminator productions.
\<close>

definition isLineTerminator :: "jschar \<Rightarrow> bool" where
  "isLineTerminator c \<longleftrightarrow> c \<in> set [0x0A, 0x0D, 0x2028, 0x2029]"

definition isWhiteSpace :: "jschar \<Rightarrow> bool" where
  "isWhiteSpace c \<longleftrightarrow>
     c \<in> set [0x09, 0x0B, 0x0C, 0x20, 0xA0, 0x1680, 0x2000, 0x2001, 0x2002, 0x2003,
              0x2004, 0x2005, 0x2006, 0x2007, 0x2008, 0x2009, 0x200A, 0x202F, 0x205F,
              0x3000, 0xFEFF]
     \<or> isLineTerminator c"

definition trim :: "jsstring \<Rightarrow> jsstring" where
  "trim s = rev (dropWhile isWhiteSpace (rev (dropWhile isWhiteSpace s)))"

text \<open>\<open>s.startsWith(p)\<close>\<close>

definition startsWith :: "jsstring \<Rightarrow> jsstring \<Rightarrow> bool" where
  "startsWith s p = prefix p s"

text \<open>\<open>s.includes(p)\<close>\<close>

fun includesStr :: "jsstring \<Rightarrow> jsstring \<Rightarrow> bool" where
  "includesStr [] p = (p = [])"
| "includesStr (c # cs) p = (prefix p (c # cs) \<or> includesStr cs p)"

text \<open>
  \<open>s.split(sep)\<close> for a string separator: the occurrences of the separator are
  found from left to right and do not overlap; an empty separator splits into code units.
\<close>

function splitOn :: "jsstring \<Rightarrow> jsstring \<Rightarrow> jsstring list" where
  "splitOn sep [] = [[]]"
| "splitOn sep (c # cs) =
     (if sep \<noteq> [] \<and> prefix sep (c # cs)
      then [] # splitOn sep (drop (length sep) (c # cs))
      else (case splitOn sep cs of [] \<Rightarrow> [[c]] | p # ps \<Rightarrow> (c # p) # ps))"
  by pat_completeness auto
termination
  by (relation "measure (\<lambda>(sep, s). length s)") (auto simp: neq_Nil_conv)

definition split :: "jsstring \<Rightarrow> jsstring \<Rightarrow> jsstring list" where
  "split s sep = (if sep = [] then map (\<lambda>c. [c]) s else splitOn sep s)"

text \<open>\<open>parts.join(sep)\<close>\<close>

fun join :: "jsstring list \<Rightarrow> jsstring \<Rightarrow> jsstring" where
  "join [] sep = []"
| "join [p] sep = p"
| "join (p # q # ps) sep = p @ sep @ join (q # ps) sep"

text \<open>\<open>s.replace(pat, rep)\<close> for a string pattern: the first occurrence only.\<close>

fun replaceStr :: "jsstring \<Rightarrow> jsstring \<Rightarrow> jsstring \<Rightarrow> jsstring" where
  "replaceStr [] pat rep = (if pat = [] then rep else [])"
| "replaceStr (c # cs) pat rep =
     (if prefix pat (c # cs) then rep @ drop (length pat) (c # cs)
      else c # replaceStr cs pat rep)"

section \<open>Regular expressions\<close>

text \<open>
  The regular expressions of the source use literals, character classes, greedy and lazy
  stars over a class, a greedy option, alternatives, capturing groups, the start anchor
  and a lookahead. \<open>run r st\<close> is the backtracking matcher: it lists, in the order in
  which the matcher tries them, the states in which \<open>r\<close> can end when started in
  \<open>st\<close>. A state is the position, the input from that position on, and the captures.
  The head of the list is the match that JavaScript reports.
\<close>

datatype rx =
    Eps
  | Chr jschar
  | Cls "jschar \<Rightarrow> bool"
  | Seq rx rx
  | Alt rx rx
  | Opt rx
  | Star "jschar \<Rightarrow> bool"
  | StarLazy "jschar \<Rightarrow> bool"
  | Group nat rx
  | Bol
  | Look rx

type_synonym captures = "nat \<Rightarrow> jsstring option"
type_synonym mstate = "nat \<times> jsstring \<times> captures"

fun run :: "rx \<Rightarrow> mstate \<Rightarrow> mstate list" where
  "run Eps st = [st]"
| "run (Chr c) (i, [], caps) = []"
| "run (Chr c) (i, x # xs, caps) = (if x = c then [(Suc i, xs, caps)] else [])"
| "run (Cls p) (i, [], caps) = []"
| "run (Cls p) (i, x # xs, caps) = (if p x then [(Suc i, xs, caps)] else [])"
| "run (Seq a b) st = concat (map (run b) (run a st))"
| "run (Alt a b) st = run a st @ run b st"
| "run (Opt a) st = run a st @ [st]"
| "run (Star p) (i, [], caps) = [(i, [], caps)]"
| "run (Star p) (i, x # xs, caps) =
     (if p x then run (Star p) (Suc i, xs, caps) @ [(i, x # xs, caps)]
      else [(i, x # xs, caps)])"
| "run (StarLazy p) (i, [], caps) = [(i, [], caps)]"
| "run (StarLazy p) (i, x # xs, caps) =
     (i, x # xs, caps) # (if p x then run (StarLazy p) (Suc i, xs, caps) else [])"
| "run (Group n a) (i, s, caps) =
     map (\<lambda>(j, s', caps'). (j, s', caps'(n \<mapsto> take (j - i) s))) (run a (i, s, caps))"
| "run Bol (i, s, caps) = (if i = 0 then [(i, s, caps)] else [])"
| "run (Look a) (i, s, caps) =
     (case run a (i, s, caps) of [] \<Rightarrow> [] | (j, s', caps') # _ \<Rightarrow> [(i, s, caps')])"

text \<open>A literal string as a pattern.\<close>

fun lit :: "jsstring \<Rightarrow> rx" where
  "lit [] = Eps"
| "lit [c] = Chr c"
| "lit (c # cs) = Seq (Chr c) (lit cs)"

text \<open>
  \<open>RegExp.prototype.exec\<close> without the sticky flag: the first position, from \<open>i\<close> on,
  at which the pattern matches, with the end of the match and the captures. The string
  argument is the input from position \<open>i\<close> on.
\<close>

fun execFrom :: "rx \<Rightarrow> nat \<Rightarrow> jsstring \<Rightarrow> (nat \<times> nat \<times> captures) option" where
  "execFrom r i [] =
     (case run r (i, [], Map.empty) of
        (j, s', caps) # _ \<Rightarrow> Some (i, j, caps)
      | [] \<Rightarrow> None)"
| "execFrom r i (c # cs) =
     (case run r (i, c # cs, Map.empty) of
        (j, s', caps) # _ \<Rightarrow> Some (i, j, caps)
      | [] \<Rightarrow> execFrom r (Suc i) cs)"

text \<open>A match ends inside the input it started in.\<close>

definition within :: "mstate \<Rightarrow> mstate \<Rightarrow> bool" where
  "within st st' \<longleftrightarrow>
     fst st \<le> fst st' \<and> fst st' \<le> fst st + length (fst (snd st))
     \<and> fst (snd st') = drop (fst st' - fst st) (fst (snd st))"

lemma within_refl: "within st st"
  by (simp add: within_def)

lemma within_trans: "within a b \<Longrightarrow> within b c \<Longrightarrow> within a c"
  by (auto simp: within_def)

lemma within_Suc:
  assumes "within (Suc i, xs, caps) st'"
  shows "within (i, x # xs, caps') st'"
proof -
  from assms obtain k where "fst st' = Suc i + k"
    by (auto simp: within_def dest: le_Suc_ex)
  then show ?thesis using assms by (simp add: within_def)
qed

lemma run_within: "st' \<in> set (run r st) \<Longrightarrow> within st st'"
proof (induction r st arbitrary: st' rule: run.induct)
  case (6 a b st)
  from "6.prems" obtain x where x: "x \<in> set (run a st)" "st' \<in> set (run b x)"
    by auto
  then have "within st x" "within x st'"
    using "6.IH" by blast+
  then show ?case by (rule within_trans)
next
  case (7 a b st)
  from "7.prems" have "st' \<in> set (run a st) \<or> st' \<in> set (run b st)" by simp
  then show ?case using "7.IH" by blast
next
  case (8 a st)
  from "8.prems" have "st' \<in> set (run a st) \<or> st' = st" by auto
  then show ?case using "8.IH" within_refl by blast
next
  case (10 p i x xs caps)
  from "10.prems" have
    "st' = (i, x # xs, caps) \<or> (p x \<and> st' \<in> set (run (Star p) (Suc i, xs, caps)))"
    by (auto split: if_splits)
  then show ?case using "10.IH" within_refl within_Suc by blast
next
  case (12 p i x xs caps)
  from "12.prems" have
    "st' = (i, x # xs, caps) \<or> (p x \<and> st' \<in> set (run (StarLazy p) (Suc i, xs, caps)))"
    by (auto split: if_splits)
  then show ?case using "12.IH" within_refl within_Suc by blast
next
  case (13 n a i s caps)
  from "13.prems" obtain j s' caps' where
    "(j, s', caps') \<in> set (run a (i, s, caps))" "st' = (j, s', caps'(n \<mapsto> take (j - i) s))"
    by auto
  then show ?case using "13.IH" [of "(j, s', caps')"] by (simp add: within_def)
next
  case (15 a i s caps)
  from "15.prems" obtain caps' where "st' = (i, s, caps')"
    by (auto split: list.splits)
  then show ?case by (simp add: within_def)
qed (auto simp: within_def split: if_splits)

lemma execFrom_bounds:
  "execFrom r i s = Some (a, b, caps) \<Longrightarrow> i \<le> a \<and> a \<le> b \<and> b \<le> i + length s"
proof (induction r i s rule: execFrom.induct)
  case (1 r i)
  show ?case
  proof (cases "run r (i, [], Map.empty)")
    case Nil
    then show ?thesis using 1 by simp
  next
    case (Cons st sts)
    then have "within (i, [], Map.empty) st"
      using run_within [of st r "(i, [], Map.empty)"] by simp
    then show ?thesis using 1 Cons by (cases st) (auto simp: within_def)
  qed
next
  case (2 r i c cs)
  show ?case
  proof (cases "run r (i, c # cs, Map.empty)")
    case Nil
    then show ?thesis using 2 by simp
  next
    case (Cons st sts)
    then have "within (i, c # cs, Map.empty) st"
      using run_within [of st r "(i, c # cs, Map.empty)"] by simp
    then show ?thesis using 2(2) Cons by (cases st) (auto simp: within_def)
  qed
qed

definition exec :: "rx \<Rightarrow> jsstring \<Rightarrow> (nat \<times> nat \<times> captures) option" where
  "exec r s = execFrom r 0 s"

text \<open>\<open>s.replace(r, rep)\<close> for a pattern without the global flag.\<close>

definition replaceRx :: "jsstring \<Rightarrow> rx \<Rightarrow> (captures \<Rightarrow> jsstring) \<Rightarrow> jsstring" where
  "replaceRx s r rep =
     (case exec r s of
        None \<Rightarrow> s
      | Some (a, b, caps) \<Rightarrow> take a s @ rep caps @ drop b s)"

text \<open>
  \<open>s.replace(r, rep)\<close> for a pattern with the global flag: every match, from left to
  right; after an empty match the search moves on by one code unit.
\<close>

function replaceAllFrom :: "rx \<Rightarrow> (captures \<Rightarrow> jsstring) \<Rightarrow> nat \<Rightarrow> jsstring \<Rightarrow> jsstring" where
  "replaceAllFrom r rep i s =
     (case execFrom r i s of
        None \<Rightarrow> s
      | Some (a, b, caps) \<Rightarrow>
          take (a - i) s @ rep caps @
          (if a < b then replaceAllFrom r rep b (drop (b - i) s)
           else (case drop (a - i) s of
                   [] \<Rightarrow> []
                 | c # cs \<Rightarrow> c # replaceAllFrom r rep (Suc a) cs)))"
  by pat_completeness auto
termination
proof (relation "measure (\<lambda>(r, rep, i, s). length s)", goal_cases)
  case 1
  show ?case by simp
next
  case (2 r rep i s x2 a y b caps)
  have "i \<le> a \<and> a \<le> b \<and> b \<le> i + length s"
    using execFrom_bounds [of r i s a b caps] 2(1,2,3) by simp
  then have "length s - (b - i) < length s" using 2(4) by arith
  then show ?case by simp
next
  case (3 r rep i s x2 a y b caps c cs)
  have "length (drop (a - i) s) = Suc (length cs)"
    by (simp only: 3(5) list.size length_Cons)
  then have "length cs < length s"
    by (simp only: length_drop)
  then show ?case by simp
qed

declare replaceAllFrom.simps [simp del]

definition replaceAllRx :: "jsstring \<Rightarrow> rx \<Rightarrow> (captures \<Rightarrow> jsstring) \<Rightarrow> jsstring" where
  "replaceAllRx s r rep = replaceAllFrom r rep 0 s"

text \<open>
  \<open>s.split(r)\<close> for a pattern without groups: \<open>p\<close> is the start of the current piece,
  \<open>q\<close> the position tried, \<open>cur\<close> the piece so far. A match that ends at \<open>p\<close> does not
  split.
\<close>

function splitRxFrom :: "rx \<Rightarrow> nat \<Rightarrow> nat \<Rightarrow> jsstring \<Rightarrow> jsstring \<Rightarrow> jsstring list" where
  "splitRxFrom r p q cur [] = [cur]"
| "splitRxFrom r p q cur (c # cs) =
     (case run r (q, c # cs, Map.empty) of
        [] \<Rightarrow> splitRxFrom r p (Suc q) (cur @ [c]) cs
      | (e, s', caps) # _ \<Rightarrow>
          if e = p then splitRxFrom r p (Suc q) (cur @ [c]) cs
          else cur # splitRxFrom r e e [] (drop (e - q) (c # cs)))"
  by pat_completeness auto
termination
proof (relation "measures [\<lambda>(r, p, q, cur, s). length s, \<lambda>(r, p, q, cur, s). if p = q then 0 else 1]", goal_cases)
  case 1
  show ?case by simp
next
  case (2 r p q cur c cs)
  show ?case by simp
next
  case (3 r p q cur c cs st sts e y s' caps)
  show ?case by simp
next
  case (4 r p q cur c cs st sts e y s' caps)
  have "within (q, c # cs, Map.empty) (e, s', caps)"
    using run_within [of "(e, s', caps)" r "(q, c # cs, Map.empty)"] 4(1,2,3) by simp
  then have b: "q \<le> e" "e \<le> q + Suc (length cs)"
    by (simp_all add: within_def)
  show ?case
  proof (cases "e = q")
    case True
    then show ?thesis using 4(4) by simp
  next
    case False
    then have "Suc (length cs + q) - e < Suc (length cs)" using b by arith
    then show ?thesis by simp
  qed
qed

definition splitRx :: "jsstring \<Rightarrow> rx \<Rightarrow> jsstring list" where
  "splitRx s r =
     (if s = [] then (if run r (0, [], Map.empty) = [] then [[]] else [])
      else splitRxFrom r 0 0 [] s)"

text \<open>\<open>s.match(r)\<close> used as a test.\<close>

definition matchesRx :: "jsstring \<Rightarrow> rx \<Rightarrow> bool" where
  "matchesRx s r \<longleftrightarrow> exec r s \<noteq> None"

section \<open>The services (services/geminiService)\<close>

text \<open>
  A binary object: its bytes and its MIME type. \<open>new Blob(chunks, {type})\<close>
  concatenates the chunks.
\<close>

record Blob =
  bytes :: "8 word list"
  blobType :: jsstring

definition blobSize :: "Blob \<Rightarrow> nat" where
  "blobSize b = length (bytes b)"

definition newBlob :: "Blob list \<Rightarrow> jsstring \<Rightarrow> Blob" where
  "newBlob chunks ty = \<lparr>bytes = concat (map bytes chunks), blobType = ty\<rparr>"

text \<open>
  The remote model call is outside the program: what it does is a parameter. It resolves
  with a value, or rejects with an \<open>Error\<close> carrying a message, or rejects with
  something that is not an \<open>Error\<close>.
\<close>

datatype 'a outcome = Resolved 'a | RejectedError jsstring | RejectedOther

definition emptyTranscriptMessage :: jsstring where
  "emptyTranscriptMessage =
     js ''La transcripci'' @ [0xF3] @ js ''n result'' @ [0xF3] @ js '' vac'' @ [0xED]
     @ js ''a. El audio puede no haber contenido voz clara.''"

definition emptyTranscriptMarker :: jsstring where
  "emptyTranscriptMarker =
     js ''La transcripci'' @ [0xF3] @ js ''n result'' @ [0xF3] @ js '' vac'' @ [0xED] @ js ''a''"

text \<open>
  \<open>transcribeAudio\<close>: the response text may be undefined (\<open>None\<close>). An empty or
  blank text throws inside the \<open>try\<close>; the \<open>catch\<close> turns every failure into a
  returned string.
\<close>

definition transcribeCatch :: "jsstring outcome \<Rightarrow> jsstring" where
  "transcribeCatch r =
     (case r of
        Resolved t \<Rightarrow> t
      | RejectedError m \<Rightarrow>
          if includesStr m emptyTranscriptMarker then js ''Error: '' @ m
          else js ''Error al transcribir el audio: '' @ m
      | RejectedOther \<Rightarrow>
          js ''Ocurri'' @ [0xF3] @ js '' un error desconocido al transcribir el audio.'')"

definition transcribeAudio :: "(Blob \<Rightarrow> jsstring option outcome) \<Rightarrow> Blob \<Rightarrow> jsstring" where
  "transcribeAudio generateContent audioBlob =
     transcribeCatch
       (case generateContent audioBlob of
          Resolved None \<Rightarrow> RejectedError emptyTranscriptMessage
        | Resolved (Some transcription) \<Rightarrow>
            if transcription = [] \<or> trim transcription = []
            then RejectedError emptyTranscriptMessage
            else Resolved transcription
        | RejectedError m \<Rightarrow> RejectedError m
        | RejectedOther \<Rightarrow> RejectedOther)"

text \<open>
  \<open>generateMinutesFromText\<close>: the prompt sent to the model is a fixed text around the
  transcription, so the remote call is taken as a function of the transcription.
\<close>

definition generateMinutesFromText :: "(jsstring \<Rightarrow> jsstring outcome) \<Rightarrow> jsstring \<Rightarrow> jsstring" where
  "generateMinutesFromText generateContent transcriptionText =
     (case generateContent transcriptionText of
        Resolved t \<Rightarrow> t
      | RejectedError m \<Rightarrow> js ''Error al contactar la API de Gemini: '' @ m
      | RejectedOther \<Rightarrow>
          js ''Ocurri'' @ [0xF3] @ js '' un error desconocido al generar la minuta.'')"

section \<open>The session (App.tsx)\<close>

datatype AppStatus = Idle | ReadyToGenerate | Recording | Transcribing | Generating | Done | Error

text \<open>
  The state of the component that the pipeline reads and writes: the React state
  \<open>status\<close>, \<open>minutes\<close>, \<open>error\<close>, \<open>recordingTime\<close>, \<open>transcriptionInput\<close> and the
  ref \<open>audioChunksRef\<close>. The two logs record the calls made to the services, in order;
  they are how the model shows an effect on the outside.
\<close>

record App =
  status :: AppStatus
  minutes :: jsstring
  error :: "jsstring option"
  recordingTime :: nat
  transcriptionInput :: jsstring
  audioChunks :: "Blob list"
  transcribeCalls :: "Blob list"
  generateCalls :: "jsstring list"

definition initialApp :: App where
  "initialApp = \<lparr>status = Idle, minutes = [], error = None, recordingTime = 0,
     transcriptionInput = [], audioChunks = [], transcribeCalls = [], generateCalls = []\<rparr>"

definition handleReset :: "App \<Rightarrow> App" where
  "handleReset s = s\<lparr>audioChunks := [], status := Idle, minutes := [], error := None,
     recordingTime := 0, transcriptionInput := []\<rparr>"

definition emptyInputMessage :: jsstring where
  "emptyInputMessage =
     js ''La transcripci'' @ [0xF3] @ js ''n no puede estar vac'' @ [0xED] @ js ''a.''"

definition generateAndSetMinutes :: "(jsstring \<Rightarrow> jsstring outcome) \<Rightarrow> jsstring \<Rightarrow> App \<Rightarrow> App" where
  "generateAndSetMinutes gen transcription s =
     (if trim transcription = []
      then s\<lparr>error := Some emptyInputMessage, status := Error\<rparr>
      else
        let s1 = s\<lparr>status := Generating, generateCalls := generateCalls s @ [transcription]\<rparr>;
            minutesResult = generateMinutesFromText gen transcription
        in if startsWith minutesResult (js ''Error'')
           then s1\<lparr>error := Some minutesResult, status := Error\<rparr>
           else s1\<lparr>minutes := minutesResult, status := Done\<rparr>)"



text \<open>The recorder's \<open>ondataavailable\<close> handler keeps the chunks that have data.\<close>

definition ondataavailable :: "Blob \<Rightarrow> App \<Rightarrow> App" where
  "ondataavailable chunk s =
     (if blobSize chunk > 0 then s\<lparr>audioChunks := audioChunks s @ [chunk]\<rparr> else s)"

definition emptyRecordingMessage :: jsstring where
  "emptyRecordingMessage =
     js ''La grabaci'' @ [0xF3] @ js ''n no contiene datos de audio. Por favor, int''
     @ [0xE9] @ js ''ntelo de nuevo.''"

text \<open>The recorder's \<open>onstop\<close> handler.\<close>

definition onstop ::
  "(Blob \<Rightarrow> jsstring option outcome) \<Rightarrow> (jsstring \<Rightarrow> jsstring outcome) \<Rightarrow> App \<Rightarrow> App" where
  "onstop tr gen s =
     (if length (audioChunks s) = 0
      then s\<lparr>error := Some emptyRecordingMessage, status := Error\<rparr>
      else
        let audioBlob = newBlob (audioChunks s) (js ''audio/webm'');
            s1 = s\<lparr>status := Transcribing, transcribeCalls := transcribeCalls s @ [audioBlob]\<rparr>;
            transcriptionResult = transcribeAudio tr audioBlob
        in if startsWith transcriptionResult (js ''Error:'')
           then s1\<lparr>error := Some transcriptionResult, status := Error\<rparr>
           else generateAndSetMinutes gen transcriptionResult s1)"

section \<open>The document parser (App.tsx)\<close>

text \<open>
  The generated document is cut into summary and body at four places of the source
  (\<open>handleCopy\<close>, \<open>handleCopySummary\<close>, \<open>handleSendToNotion\<close>, the \<open>Done\<close> case of
  \<open>renderContent\<close>), always the same way:
  \<^verbatim>\<open>const [summary, ...markdownParts] = minutes.split('---');\<close>
  \<^verbatim>\<open>const rawMarkdown = markdownParts.join('---').trim();\<close>
  and the summary is used as \<open>summary.trim()\<close>. \<open>split\<close> never returns an empty
  array (\<open>splitOn_not_Nil\<close> below), so the first case is not reached.
\<close>

definition splitSummaryAndBody :: "jsstring \<Rightarrow> jsstring \<times> jsstring" where
  "splitSummaryAndBody raw =
     (case split raw (js ''---'') of
        [] \<Rightarrow> ([], [])
      | summary # markdownParts \<Rightarrow> (trim summary, trim (join markdownParts (js ''---''))))"

section \<open>The patterns and the renderers (App.tsx)\<close>


definition dotChar :: "jschar \<Rightarrow> bool" where
  "dotChar c \<longleftrightarrow> \<not> isLineTerminator c"

text \<open>\<open>/\*\*(.*?)\*\*/g\<close>\<close>
definition boldRx :: rx where
  "boldRx = Seq (lit (js ''**'')) (Seq (Group 1 (StarLazy dotChar)) (lit (js ''**'')))"

text \<open>The replacement \<open>'<strong>$1</strong>'\<close>\<close>
definition strongTemplate :: "captures \<Rightarrow> jsstring" where
  "strongTemplate caps =
     js ''<strong>'' @ (case caps 1 of None \<Rightarrow> [] | Some t \<Rightarrow> t) @ js ''</strong>''"

text \<open>\<open>/^\s*(\*|-|\[ \])\s/\<close>\<close>
definition listItemRx :: rx where
  "listItemRx =
     Seq Bol (Seq (Star isWhiteSpace)
       (Seq (Group 1 (Alt (Chr 0x2A) (Alt (Chr 0x2D) (lit (js ''[ ]'')))))
            (Cls isWhiteSpace)))"

text \<open>\<open>/^\s*(\*|-|\[ \])\s*/\<close>\<close>
definition listPrefixRx :: rx where
  "listPrefixRx =
     Seq Bol (Seq (Star isWhiteSpace)
       (Seq (Group 1 (Alt (Chr 0x2A) (Alt (Chr 0x2D) (lit (js ''[ ]'')))))
            (Star isWhiteSpace)))"

text \<open>\<open>/(?=###\s)/\<close>\<close>
definition sectionRx :: rx where
  "sectionRx = Look (Seq (lit (js ''###'')) (Cls isWhiteSpace))"

text \<open>\<open>/\[ \]\s*/\<close>\<close>
definition checkboxRx :: rx where
  "checkboxRx = Seq (lit (js ''[ ]'')) (Star isWhiteSpace)"

text \<open>\<open>/^\s*[\*\-]\s*/\<close>\<close>
definition bulletRx :: rx where
  "bulletRx =
     Seq Bol (Seq (Star isWhiteSpace)
       (Seq (Cls (\<lambda>c. c = 0x2A \<or> c = 0x2D)) (Star isWhiteSpace)))"





text \<open>
  \<open>markdownToHtml\<close> appends to the string \<open>html\<close> one piece at a time; each piece is
  an element here, and the string is the concatenation of the rendered elements. The
  flag \<open>inList\<close> is the loop's state.
\<close>

datatype htmlElement = HtmlH3 jsstring | HtmlUlOpen | HtmlUlClose | HtmlLi jsstring | HtmlP jsstring

fun renderElement :: "htmlElement \<Rightarrow> jsstring" where
  "renderElement (HtmlH3 t) = js ''<h3>'' @ t @ js ''</h3>'' @ [0x0A]"
| "renderElement HtmlUlOpen = js ''<ul>'' @ [0x0A]"
| "renderElement HtmlUlClose = js ''</ul>'' @ [0x0A]"
| "renderElement (HtmlLi t) = js ''<li>'' @ t @ js ''</li>'' @ [0x0A]"
| "renderElement (HtmlP t) = js ''<p>'' @ t @ js ''</p>'' @ [0x0A]"

definition closeList :: "bool \<Rightarrow> htmlElement list" where
  "closeList inList = (if inList then [HtmlUlClose] else [])"

fun htmlLines :: "bool \<Rightarrow> jsstring list \<Rightarrow> htmlElement list" where
  "htmlLines inList [] = closeList inList"
| "htmlLines inList (line # lines) =
     (let processedLine = trim line in
      if processedLine = [] then closeList inList @ htmlLines False lines
      else
        let processedLine = replaceAllRx processedLine boldRx strongTemplate in
        if startsWith processedLine (js ''### '')
        then closeList inList @ [HtmlH3 (replaceStr processedLine (js ''### '') [])]
             @ htmlLines False lines
        else if matchesRx processedLine listItemRx
        then (if \<not> inList then [HtmlUlOpen] else [])
             @ [HtmlLi (replaceRx processedLine listPrefixRx (\<lambda>caps. []))]
             @ htmlLines True lines
        else closeList inList @ [HtmlP processedLine] @ htmlLines False lines)"

definition markdownToHtmlElements :: "jsstring \<Rightarrow> htmlElement list" where
  "markdownToHtmlElements markdownText = htmlLines False (split markdownText [0x0A])"

definition markdownToHtml :: "jsstring \<Rightarrow> jsstring" where
  "markdownToHtml markdownText = concat (map renderElement (markdownToHtmlElements markdownText))"

text \<open>
  A run of Notion rich text (the constant field \<open>type: 'text'\<close> is left out) and
  \<open>createTextWithBold\<close>: the parts between \<open>**\<close> markers, the odd-indexed ones bold,
  the empty ones dropped.
\<close>

record richText =
  content :: jsstring
  bold :: bool

fun richTextParts :: "nat \<Rightarrow> jsstring list \<Rightarrow> richText list" where
  "richTextParts index [] = []"
| "richTextParts index (part # parts) =
     (if part \<noteq> [] then [\<lparr>content = part, bold = (index mod 2 = 1)\<rparr>] else [])
     @ richTextParts (Suc index) parts"

definition createTextWithBold :: "jsstring \<Rightarrow> richText list" where
  "createTextWithBold text = richTextParts 0 (split text (js ''**''))"

text \<open>
  The blocks of \<open>parseMarkdownToNotionBlocks\<close>: \<open>heading_3\<close>, \<open>to_do\<close> with its
  \<open>checked\<close> flag, \<open>paragraph\<close>. \<open>taskLine\<close> and \<open>paragraphLine\<close> are the bodies of
  the two loops over the content lines, \<open>sectionBlocks\<close> the body of the loop over the
  sections.
\<close>

datatype block = Heading3 "richText list" | ToDo "richText list" bool | Paragraph "richText list"

definition taskLine :: "jsstring \<Rightarrow> block list" where
  "taskLine line =
     (let taskText = trim (replaceRx line checkboxRx (\<lambda>caps. []))
      in if taskText \<noteq> [] then [ToDo (createTextWithBold taskText) False] else [])"

definition paragraphLine :: "jsstring \<Rightarrow> block list" where
  "paragraphLine line =
     (let cleanedLine = trim (replaceRx line bulletRx (\<lambda>caps. []))
      in if cleanedLine \<noteq> []
         then [Paragraph (createTextWithBold ([0x2022, 0x20] @ cleanedLine))]
         else [])"

definition contentBlocks :: "jsstring \<Rightarrow> jsstring list \<Rightarrow> block list" where
  "contentBlocks title contentLines =
     (if includesStr title (js ''Compromisos y tareas'')
      then concat (map taskLine contentLines)
      else concat (map paragraphLine contentLines))"

definition sectionBlocks :: "jsstring \<Rightarrow> block list" where
  "sectionBlocks section =
     (case filter (\<lambda>line. trim line \<noteq> []) (split (trim section) [0x0A]) of
        [] \<Rightarrow> []
      | line0 # contentLines \<Rightarrow>
          let title = trim (replaceStr line0 (js ''### '') [])
          in Heading3 (createTextWithBold title) # contentBlocks title contentLines)"

definition parseMarkdownToNotionBlocks :: "jsstring \<Rightarrow> block list" where
  "parseMarkdownToNotionBlocks markdown =
     concat (map sectionBlocks (filter (\<lambda>s. trim s \<noteq> []) (splitRx markdown sectionRx)))"


section \<open>Facts about strings\<close>

lemma splitOn_not_Nil: "splitOn sep s \<noteq> []"
  by (induction sep s rule: splitOn.induct) (auto split: list.splits)

lemma splitOn_no_occurrence: "\<not> includesStr s sep \<Longrightarrow> splitOn sep s = [s]"
  by (induction s) auto

lemma join_splitOn: "sep \<noteq> [] \<Longrightarrow> join (splitOn sep s) sep = s"
proof (induction sep s rule: splitOn.induct)
  case (1 sep)
  then show ?case by simp
next
  case (2 sep c cs)
  show ?case
  proof (cases "prefix sep (c # cs)")
    case True
    then obtain r where r: "c # cs = sep @ r" by (auto simp: prefix_def)
    obtain p ps where ps: "splitOn sep r = p # ps"
      using splitOn_not_Nil [of sep r] by (cases "splitOn sep r") auto
    have d: "drop (length sep) (c # cs) = r" using r by simp
    have "join (splitOn sep r) sep = r" using 2 True d by simp
    moreover have "splitOn sep (c # cs) = [] # splitOn sep r"
      using True 2(3) d by simp
    ultimately show ?thesis using r ps by simp
  next
    case False
    obtain p ps where ps: "splitOn sep cs = p # ps"
      using splitOn_not_Nil [of sep cs] by (cases "splitOn sep cs") auto
    have "join (splitOn sep cs) sep = cs" using 2 False by simp
    then show ?thesis using False ps by (cases ps) auto
  qed
qed

lemma js_dashes: "js ''---'' = [45, 45, 45]"
  by (simp add: js_def)

lemma splitOn_first_delimiter:
  "\<not> includesStr S [45, 45, 45] \<Longrightarrow>
   splitOn [45, 45, 45] (S @ 0x0A # 45 # 45 # 45 # B) = (S @ [0x0A]) # splitOn [45, 45, 45] B"
proof (induction S)
  case Nil
  then show ?case by simp
next
  case (Cons c S)
  have "\<not> prefix [45, 45, 45] (c # S @ 0x0A # 45 # 45 # 45 # B)"
    using Cons.prems by (cases S; cases "tl S") auto
  then show ?case using Cons by simp
qed

lemma trim_snoc_ws:
  assumes "isWhiteSpace w"
  shows "trim (s @ [w]) = trim s"
proof (cases "\<forall>x\<in>set s. isWhiteSpace x")
  case True
  have "\<forall>x\<in>set (s @ [w]). isWhiteSpace x" using True assms by simp
  then have "dropWhile isWhiteSpace (s @ [w]) = []"
    unfolding dropWhile_eq_Nil_conv .
  moreover have "dropWhile isWhiteSpace s = []"
    using True unfolding dropWhile_eq_Nil_conv .
  ultimately show ?thesis by (simp only: trim_def rev.simps dropWhile.simps)
next
  case False
  then have "dropWhile isWhiteSpace (s @ [w]) = dropWhile isWhiteSpace s @ [w]"
    by (auto simp: dropWhile_append1)
  then show ?thesis using assms by (simp add: trim_def)
qed

lemma trim_Cons_ws: "isWhiteSpace w \<Longrightarrow> trim (w # s) = trim s"
  by (simp add: trim_def)

lemma nl_ws: "isWhiteSpace 0x0A"
  by (simp add: isWhiteSpace_def isLineTerminator_def)

section \<open>Facts about the session\<close>

lemma emptyTranscript_result:
  "transcribeCatch (RejectedError emptyTranscriptMessage) = js ''Error: '' @ emptyTranscriptMessage"
  by (simp add: transcribeCatch_def emptyTranscriptMessage_def emptyTranscriptMarker_def js_def)

lemma startsWith_append_same: "startsWith (p @ q @ r) p"
  by (simp add: startsWith_def)

lemma emptyTranscript_startsWith:
  "startsWith (js ''Error: '' @ emptyTranscriptMessage) (js ''Error:'')"
  by (simp add: startsWith_def js_def)

text \<open>
  C7. When the recorder stops with no accumulated chunk, the handler sets the message of
  the empty recording, moves the session to \<open>Error\<close>, and returns before an audio object
  is built: the log of calls to the transcription service is as it was, and so is the
  log of generation calls.
\<close>

theorem C7_empty_recording:
  "audioChunks s = [] \<Longrightarrow>
     status (onstop tr gen s) = Error
     \<and> error (onstop tr gen s) = Some emptyRecordingMessage
     \<and> transcribeCalls (onstop tr gen s) = transcribeCalls s
     \<and> generateCalls (onstop tr gen s) = generateCalls s
     \<and> minutes (onstop tr gen s) = minutes s"
  by (simp add: onstop_def)

theorem C7_empty_recording_witness:
  "audioChunks initialApp = []
   \<and> status (onstop (\<lambda>b. RejectedOther) (\<lambda>t. RejectedOther) initialApp) = Error
   \<and> transcribeCalls (onstop (\<lambda>b. RejectedOther) (\<lambda>t. RejectedOther) initialApp) = []"
  using C7_empty_recording [of initialApp "\<lambda>b. RejectedOther" "\<lambda>t. RejectedOther"]
  by (simp add: initialApp_def)

text \<open>
  C6. The recorder stops with accumulated chunks and the remote transcription call
  resolves with an undefined, empty or blank text. Then \<open>transcribeAudio\<close> returns the
  string of the empty transcript, and the handler moves the session to \<open>Error\<close> with that
  string as the message; the minutes are left as they were (empty after the reset that
  starts every recording) and no generation call is made.
\<close>

theorem C6_empty_transcript:
  assumes "audioChunks s \<noteq> []"
    and "tr (newBlob (audioChunks s) (js ''audio/webm'')) = Resolved t"
    and "case t of None \<Rightarrow> True | Some x \<Rightarrow> trim x = []"
  shows "status (onstop tr gen s) = Error
     \<and> error (onstop tr gen s) = Some (js ''Error: '' @ emptyTranscriptMessage)
     \<and> minutes (onstop tr gen s) = minutes s
     \<and> generateCalls (onstop tr gen s) = generateCalls s"
proof -
  have "transcribeAudio tr (newBlob (audioChunks s) (js ''audio/webm''))
          = js ''Error: '' @ emptyTranscriptMessage"
    using assms(2,3) by (cases t) (simp_all add: transcribeAudio_def emptyTranscript_result)
  then show ?thesis
    using assms(1) emptyTranscript_startsWith by (simp add: onstop_def Let_def)
qed

theorem C6_empty_transcript_witness:
  "audioChunks (initialApp\<lparr>audioChunks := [\<lparr>bytes = [1], blobType = []\<rparr>]\<rparr>) \<noteq> []
   \<and> trim (js ''  '') = []
   \<and> status (onstop (\<lambda>b. Resolved (Some (js ''  ''))) (\<lambda>x. Resolved x)
         (initialApp\<lparr>audioChunks := [\<lparr>bytes = [1], blobType = []\<rparr>]\<rparr>)) = Error
   \<and> minutes (onstop (\<lambda>b. Resolved (Some (js ''  ''))) (\<lambda>x. Resolved x)
         (initialApp\<lparr>audioChunks := [\<lparr>bytes = [1], blobType = []\<rparr>]\<rparr>)) = []"
  using C6_empty_transcript [of "initialApp\<lparr>audioChunks := [\<lparr>bytes = [1], blobType = []\<rparr>]\<rparr>"
      "\<lambda>b. Resolved (Some (js ''  ''))" "Some (js ''  '')" "\<lambda>x. Resolved x"]
  by (simp add: initialApp_def trim_def js_def isWhiteSpace_def)




section \<open>Facts about the document parser\<close>

text \<open>
  C1, as the claim states it, fails: a document without the delimiter comes back as the
  summary, and the body is empty.
\<close>

theorem C1_counterexample:
  "splitSummaryAndBody (js ''abc'') = (js ''abc'', [])
   \<and> splitSummaryAndBody (js ''abc'') \<noteq> ([], js ''abc'')"
  by (simp add: splitSummaryAndBody_def split_def js_def trim_def isWhiteSpace_def isLineTerminator_def)

text \<open>
  C1, amended. For every document in which \<open>---\<close> does not occur, the split returns the
  whole document, trimmed, as the summary, and the empty string as the body; it is a
  total function, so no error is signalled.
\<close>

theorem C1_no_delimiter:
  "\<not> includesStr raw (js ''---'') \<Longrightarrow> splitSummaryAndBody raw = (trim raw, [])"
  by (simp add: splitSummaryAndBody_def split_def js_dashes splitOn_no_occurrence trim_def)

theorem C1_no_delimiter_witness:
  "\<not> includesStr (js ''Hola - mundo'') (js ''---'')
   \<and> splitSummaryAndBody (js ''Hola - mundo'') = (js ''Hola - mundo'', [])"
  using C1_no_delimiter [of "js ''Hola - mundo''"]
  by (simp add: js_def trim_def isWhiteSpace_def isLineTerminator_def)

text \<open>
  C5, as the claim states it, fails in two ways: a summary in which \<open>---\<close> occurs is cut
  at that occurrence, and both parts come back trimmed. The first document is
  \<open>a---b\<close>, newline, \<open>---\<close>, newline, \<open>c\<close>; the second is \<open>a\<close>, newline, \<open>---\<close>, newline,
  a space and \<open>b\<close>.
\<close>

theorem C5_counterexample:
  "splitSummaryAndBody (js ''a---b'' @ [0x0A] @ js ''---'' @ [0x0A] @ js ''c'')
     = (js ''a'', js ''b'' @ [0x0A] @ js ''---'' @ [0x0A] @ js ''c'')
   \<and> splitSummaryAndBody (js ''a'' @ [0x0A] @ js ''---'' @ [0x0A] @ js '' b'') = (js ''a'', js ''b'')"
  by (simp add: splitSummaryAndBody_def split_def js_def trim_def isWhiteSpace_def isLineTerminator_def)

text \<open>
  C5, amended. For every summary \<open>S\<close> in which \<open>---\<close> does not occur and every body
  \<open>B\<close> (whatever it contains), the split of \<open>S\<close>, newline, \<open>---\<close>, newline, \<open>B\<close> returns
  \<open>S\<close> trimmed and \<open>B\<close> trimmed; so it returns exactly \<open>(S, B)\<close> when neither begins or
  ends with white space.
\<close>

theorem C5_round_trip:
  assumes "\<not> includesStr S (js ''---'')"
  shows "splitSummaryAndBody (S @ [0x0A] @ js ''---'' @ [0x0A] @ B) = (trim S, trim B)"
proof -
  have e: "S @ [0x0A] @ js ''---'' @ [0x0A] @ B = S @ 0x0A # 45 # 45 # 45 # (0x0A # B)"
    by (simp add: js_dashes)
  have s: "splitOn [45, 45, 45] (S @ 0x0A # 45 # 45 # 45 # (0x0A # B))
             = (S @ [0x0A]) # splitOn [45, 45, 45] (0x0A # B)"
    using assms by (intro splitOn_first_delimiter) (simp add: js_dashes)
  have j: "join (splitOn [45, 45, 45] (0x0A # B)) [45, 45, 45] = 0x0A # B"
    by (intro join_splitOn) simp
  show ?thesis
    unfolding splitSummaryAndBody_def split_def e
    by (simp add: js_dashes s j trim_snoc_ws trim_Cons_ws nl_ws del: splitOn.simps)
qed

theorem C5_round_trip_witness:
  "\<not> includesStr (js ''Resumen'') (js ''---'')
   \<and> splitSummaryAndBody (js ''Resumen'' @ [0x0A] @ js ''---'' @ [0x0A] @ js ''### 1. A --- B'')
       = (js ''Resumen'', js ''### 1. A --- B'')"
  using C5_round_trip [of "js ''Resumen''" "js ''### 1. A --- B''"]
  by (simp add: js_def trim_def isWhiteSpace_def isLineTerminator_def)

section \<open>Facts about the matcher\<close>





lemma run_Star_greedy:
  "\<exists>rest. run (Star p) (i, s, caps)
     = (i + length (takeWhile p s), dropWhile p s, caps) # rest"
proof (induction s arbitrary: i)
  case Nil
  then show ?case by simp
next
  case (Cons x xs)
  from Cons [of "Suc i"] obtain rest where
    "run (Star p) (Suc i, xs, caps) = (Suc i + length (takeWhile p xs), dropWhile p xs, caps) # rest"
    by blast
  then show ?case by simp
qed

lemma run_Seq_Star_skip:
  assumes "\<forall>c\<in>set w. p c" and "X = [] \<or> \<not> p (hd X)"
  shows "\<exists>ys. run (Seq (Star p) K) (i, w @ X, caps) = run K (i + length w, X, caps) @ ys"
  using assms(1)
proof (induction w arbitrary: i)
  case Nil
  show ?case using assms(2) by (cases X) auto
next
  case (Cons c w)
  from Cons.IH [of "Suc i"] Cons.prems obtain ys where
    "run (Seq (Star p) K) (Suc i, w @ X, caps) = run K (Suc i + length w, X, caps) @ ys"
    by auto
  then show ?case using Cons.prems by simp
qed

lemma run_Star_Cls_fail:
  assumes "\<forall>c\<in>set w. p c \<and> \<not> q c" and "s = [] \<or> (\<not> p (hd s) \<and> \<not> q (hd s))"
  shows "run (Seq (Star p) (Seq (Cls q) K)) (i, w @ s, caps) = []"
  using assms(1)
proof (induction w arbitrary: i)
  case Nil
  show ?case using assms(2) by (cases s) auto
next
  case (Cons c w)
  then show ?case by simp
qed

lemma execFrom_Bol: "0 < i \<Longrightarrow> execFrom (Seq Bol K) i s = None"
  by (induction s arbitrary: i) auto

lemma exec_Bol_fail:
  "run (Seq Bol K) (0, s, Map.empty) = [] \<Longrightarrow> exec (Seq Bol K) s = None"
  by (cases s) (simp_all add: exec_def execFrom_Bol del: run.simps)

lemma exec_Bol_match:
  "run (Seq Bol K) (0, s, Map.empty) = (j, s', caps) # rest
     \<Longrightarrow> exec (Seq Bol K) s = Some (0, j, caps)"
  by (cases s) (simp_all add: exec_def del: run.simps)

section \<open>Facts about white space\<close>

lemma trim_Nil_iff: "trim s = [] \<longleftrightarrow> (\<forall>c\<in>set s. isWhiteSpace c)"
proof
  assume "trim s = []"
  then have "dropWhile isWhiteSpace (rev (dropWhile isWhiteSpace s)) = []"
    by (simp add: trim_def)
  then have "\<forall>c\<in>set (dropWhile isWhiteSpace s). isWhiteSpace c"
    by (simp add: dropWhile_eq_Nil_conv)
  then have "dropWhile isWhiteSpace s = []"
    by (metis hd_dropWhile list.set_sel(1))
  then show "\<forall>c\<in>set s. isWhiteSpace c"
    by (simp add: dropWhile_eq_Nil_conv)
next
  assume "\<forall>c\<in>set s. isWhiteSpace c"
  then have "dropWhile isWhiteSpace s = []"
    unfolding dropWhile_eq_Nil_conv .
  then show "trim s = []" by (simp only: trim_def rev.simps dropWhile.simps)
qed


lemma ws_facts:
  "\<not> isWhiteSpace 0x5B" "\<not> isWhiteSpace 0x2A" "\<not> isWhiteSpace 0x2D" "\<not> isWhiteSpace 0x23"
  "isWhiteSpace 0x20"
  by (simp_all add: isWhiteSpace_def isLineTerminator_def)

lemma js_checkbox: "js ''[ ]'' = [0x5B, 0x20, 0x5D]" "js ''[ ] '' = [0x5B, 0x20, 0x5D, 0x20]"
  by (simp_all add: js_def)

section \<open>Facts about the two line patterns\<close>

lemma execFrom_checkbox:
  "0x5B \<notin> set a \<Longrightarrow>
   execFrom checkboxRx i (a @ 0x5B # 0x20 # 0x5D # s)
     = Some (i + length a, i + length a + 3 + length (takeWhile isWhiteSpace s), Map.empty)"
proof (induction a arbitrary: i)
  case Nil
  obtain rest where
    "run (Star isWhiteSpace) (Suc (Suc (Suc i)), s, Map.empty)
       = (Suc (Suc (Suc i)) + length (takeWhile isWhiteSpace s), dropWhile isWhiteSpace s, Map.empty) # rest"
    using run_Star_greedy by blast
  then show ?case by (simp add: checkboxRx_def js_checkbox)
next
  case (Cons c a)
  then show ?case by (simp add: checkboxRx_def js_checkbox)
qed

lemma execFrom_checkbox_absent:
  "0x5B \<notin> set s \<Longrightarrow> execFrom checkboxRx i s = None"
  by (induction s arbitrary: i) (simp_all add: checkboxRx_def js_checkbox)

lemma replaceRx_checkbox:
  assumes "0x5B \<notin> set a"
  shows "replaceRx (a @ js ''[ ]'' @ s) checkboxRx (\<lambda>caps. []) = a @ dropWhile isWhiteSpace s"
proof -
  have "exec checkboxRx (a @ js ''[ ]'' @ s)
          = Some (length a, length a + 3 + length (takeWhile isWhiteSpace s), Map.empty)"
    using execFrom_checkbox [OF assms, of 0 s] by (simp add: exec_def js_checkbox)
  moreover have "drop (3 + length (takeWhile isWhiteSpace s)) (0x5B # 0x20 # 0x5D # s)
      = drop (length (takeWhile isWhiteSpace s)) s"
    by (simp add: numeral_3_eq_3)
  ultimately show ?thesis
    by (simp add: replaceRx_def js_checkbox dropWhile_eq_drop)
qed

lemma replaceRx_checkbox_absent:
  "0x5B \<notin> set s \<Longrightarrow> replaceRx s checkboxRx (\<lambda>caps. []) = s"
  by (simp add: replaceRx_def exec_def execFrom_checkbox_absent)

lemma exec_bullet_none:
  assumes "\<forall>c\<in>set w. isWhiteSpace c"
    and "s = [] \<or> (\<not> isWhiteSpace (hd s) \<and> hd s \<noteq> 0x2A \<and> hd s \<noteq> 0x2D)"
  shows "exec bulletRx (w @ s) = None"
proof -
  have "\<forall>c\<in>set w. isWhiteSpace c \<and> \<not> (c = 0x2A \<or> c = 0x2D)"
    using assms(1) ws_facts by auto
  then have "run (Seq (Star isWhiteSpace) (Seq (Cls (\<lambda>c. c = 0x2A \<or> c = 0x2D)) (Star isWhiteSpace)))
               (0, w @ s, Map.empty) = []"
    using assms(2) by (intro run_Star_Cls_fail) auto
  then have "run bulletRx (0, w @ s, Map.empty) = []"
    by (simp add: bulletRx_def)
  then show ?thesis
    unfolding bulletRx_def by (rule exec_Bol_fail)
qed

lemma exec_bullet_match:
  assumes "\<forall>c\<in>set w. isWhiteSpace c" and "b = 0x2A \<or> b = 0x2D"
  shows "\<exists>caps. exec bulletRx (w @ b # s)
           = Some (0, length w + 1 + length (takeWhile isWhiteSpace s), caps)"
proof -
  let ?K = "Seq (Cls (\<lambda>c. c = 0x2A \<or> c = 0x2D)) (Star isWhiteSpace)"
  have nb: "\<not> isWhiteSpace b" using assms(2) ws_facts by auto
  obtain ys where
    ys: "run (Seq (Star isWhiteSpace) ?K) (0, w @ b # s, Map.empty)
           = run ?K (0 + length w, b # s, Map.empty) @ ys"
    using run_Seq_Star_skip [OF assms(1), of "b # s" ?K 0 Map.empty] nb by auto
  obtain rest where
    rest: "run (Star isWhiteSpace) (Suc (length w), s, Map.empty)
           = (Suc (length w) + length (takeWhile isWhiteSpace s), dropWhile isWhiteSpace s, Map.empty) # rest"
    using run_Star_greedy by blast
  have "run ?K (length w, b # s, Map.empty) = run (Star isWhiteSpace) (Suc (length w), s, Map.empty)"
    using assms(2) by auto
  then have "run (Seq Bol (Seq (Star isWhiteSpace) ?K)) (0, w @ b # s, Map.empty)
        = (Suc (length w) + length (takeWhile isWhiteSpace s), dropWhile isWhiteSpace s, Map.empty)
          # (rest @ ys)"
    using ys rest by simp
  then have "exec (Seq Bol (Seq (Star isWhiteSpace) ?K)) (w @ b # s)
        = Some (0, Suc (length w) + length (takeWhile isWhiteSpace s), Map.empty)"
    by (rule exec_Bol_match)
  then show ?thesis by (simp add: bulletRx_def)
qed

lemma replaceRx_bullet:
  assumes "\<forall>c\<in>set w. isWhiteSpace c" and "b = 0x2A \<or> b = 0x2D"
  shows "replaceRx (w @ b # s) bulletRx (\<lambda>caps. []) = dropWhile isWhiteSpace s"
proof -
  obtain caps where
    "exec bulletRx (w @ b # s) = Some (0, length w + 1 + length (takeWhile isWhiteSpace s), caps)"
    using exec_bullet_match [OF assms] by blast
  then show ?thesis by (simp add: replaceRx_def dropWhile_eq_drop)
qed

lemma replaceRx_bullet_none:
  assumes "\<forall>c\<in>set w. isWhiteSpace c"
    and "s = [] \<or> (\<not> isWhiteSpace (hd s) \<and> hd s \<noteq> 0x2A \<and> hd s \<noteq> 0x2D)"
  shows "replaceRx (w @ s) bulletRx (\<lambda>caps. []) = w @ s"
  using exec_bullet_none [OF assms] by (simp add: replaceRx_def)

lemma contentBlocks_Nil: "contentBlocks title [] = []"
  by (simp add: contentBlocks_def)

lemma contentBlocks_append:
  "contentBlocks title (xs @ ys) = contentBlocks title xs @ contentBlocks title ys"
  by (simp add: contentBlocks_def)



section \<open>Facts about the block encoding\<close>



text \<open>
  The scenario of the specification: the same line \<open>[ ] x\<close> under section 3 and under
  section 5 of one body.
\<close>

lemma checkbox_scenario:
  "parseMarkdownToNotionBlocks
     (js ''### 3. Temas tratados'' @ [0x0A] @ js ''[ ] x'' @ [0x0A]
      @ js ''### 5. Compromisos y tareas'' @ [0x0A] @ js ''[ ] x'')
   = [Heading3 [\<lparr>content = js ''3. Temas tratados'', bold = False\<rparr>],
      Paragraph [\<lparr>content = [0x2022, 0x20] @ js ''[ ] x'', bold = False\<rparr>],
      Heading3 [\<lparr>content = js ''5. Compromisos y tareas'', bold = False\<rparr>],
      ToDo [\<lparr>content = js ''x'', bold = False\<rparr>] False]"
  by code_simp


lemma ws_not_bracket: "isWhiteSpace c \<Longrightarrow> c \<noteq> 0x5B"
  using ws_facts(1) by auto

lemma taskLine_blank:
  assumes "\<forall>c\<in>set w. isWhiteSpace c"
  shows "taskLine w = []"
proof -
  have "0x5B \<notin> set w" using assms ws_not_bracket by blast
  then have "replaceRx w checkboxRx (\<lambda>caps. []) = w" by (rule replaceRx_checkbox_absent)
  moreover have "trim w = []" using assms by (simp add: trim_Nil_iff)
  ultimately show ?thesis by (simp add: taskLine_def)
qed

lemma paragraphLine_blank:
  assumes "\<forall>c\<in>set w. isWhiteSpace c"
  shows "paragraphLine w = []"
proof -
  have "replaceRx (w @ []) bulletRx (\<lambda>caps. []) = w @ []"
    using assms by (intro replaceRx_bullet_none) simp_all
  moreover have "trim w = []" using assms by (simp add: trim_Nil_iff)
  ultimately show ?thesis by (simp add: paragraphLine_def)
qed

lemma taskLine_checkbox_only:
  assumes "\<forall>c\<in>set w1. isWhiteSpace c" and "\<forall>c\<in>set w2. isWhiteSpace c"
  shows "taskLine (w1 @ js ''[ ]'' @ w2) = []"
proof -
  have "0x5B \<notin> set w1" using assms(1) ws_not_bracket by blast
  then have "replaceRx (w1 @ js ''[ ]'' @ w2) checkboxRx (\<lambda>caps. [])
               = w1 @ dropWhile isWhiteSpace w2"
    by (rule replaceRx_checkbox)
  moreover have "dropWhile isWhiteSpace w2 = []"
    using assms(2) unfolding dropWhile_eq_Nil_conv .
  moreover have "trim w1 = []" using assms(1) by (simp add: trim_Nil_iff)
  ultimately show ?thesis by (simp add: taskLine_def)
qed

lemma paragraphLine_bullet_only:
  assumes "\<forall>c\<in>set w1. isWhiteSpace c" and "\<forall>c\<in>set w2. isWhiteSpace c"
    and "b = 0x2A \<or> b = 0x2D"
  shows "paragraphLine (w1 @ [b] @ w2) = []"
proof -
  have "replaceRx (w1 @ b # w2) bulletRx (\<lambda>caps. []) = dropWhile isWhiteSpace w2"
    using assms(1,3) by (rule replaceRx_bullet)
  moreover have "dropWhile isWhiteSpace w2 = []"
    using assms(2) unfolding dropWhile_eq_Nil_conv .
  moreover have "trim [] = ([] :: jsstring)" by (simp add: trim_def)
  ultimately show ?thesis by (simp add: paragraphLine_def)
qed

text \<open>
  C10, as the claim states it, fails: a line that is only the checkbox prefix, under a
  section that is not the task section, gives a paragraph (the bullet, a space and
  \<open>[ ]\<close>), and a line that is only a bullet, under the task section, gives a task.
\<close>

theorem C10_counterexample:
  "contentBlocks (js ''3. Temas tratados'') [js ''[ ]'']
     = [Paragraph [\<lparr>content = [0x2022, 0x20] @ js ''[ ]'', bold = False\<rparr>]]
   \<and> contentBlocks (js ''5. Compromisos y tareas'') [js ''*'']
     = [ToDo [\<lparr>content = js ''*'', bold = False\<rparr>] False]"
  by code_simp

text \<open>
  C10, amended. A task block is emitted for a content line exactly when the line,
  after removing its first \<open>[ ]\<close> with the white space that follows and trimming, is not
  empty; a paragraph block exactly when the line, after removing a leading \<open>*\<close> or
  \<open>-\<close> with the white space around it and trimming, is not empty. So a blank line
  gives no block under any section, a line that is only \<open>[ ]\<close> (with white space
  around) gives none under the task section, and a line that is only \<open>*\<close> or \<open>-\<close>
  (with white space around) gives none under the other sections.
\<close>

theorem C10_no_text_no_block:
  assumes "\<forall>c\<in>set w1. isWhiteSpace c" and "\<forall>c\<in>set w2. isWhiteSpace c"
    and "b = 0x2A \<or> b = 0x2D"
  shows "contentBlocks title (pre @ [w1] @ post) = contentBlocks title pre @ contentBlocks title post
     \<and> (includesStr title (js ''Compromisos y tareas'') \<longrightarrow>
          contentBlocks title (pre @ [w1 @ js ''[ ]'' @ w2] @ post)
            = contentBlocks title pre @ contentBlocks title post)
     \<and> (\<not> includesStr title (js ''Compromisos y tareas'') \<longrightarrow>
          contentBlocks title (pre @ [w1 @ [b] @ w2] @ post)
            = contentBlocks title pre @ contentBlocks title post)
     \<and> (taskLine line \<noteq> [] \<longleftrightarrow> trim (replaceRx line checkboxRx (\<lambda>caps. [])) \<noteq> [])
     \<and> (paragraphLine line \<noteq> [] \<longleftrightarrow> trim (replaceRx line bulletRx (\<lambda>caps. [])) \<noteq> [])"
proof -
  have 1: "contentBlocks title [w1] = []"
    using assms(1) by (simp add: contentBlocks_def taskLine_blank paragraphLine_blank)
  have 2: "includesStr title (js ''Compromisos y tareas'') \<Longrightarrow>
             contentBlocks title [w1 @ js ''[ ]'' @ w2] = []"
    using assms(1,2) by (simp add: contentBlocks_def taskLine_checkbox_only)
  have 3: "\<not> includesStr title (js ''Compromisos y tareas'') \<Longrightarrow>
             contentBlocks title [w1 @ [b] @ w2] = []"
    using assms by (simp add: contentBlocks_def paragraphLine_bullet_only del: append.simps)
  have 4: "taskLine line \<noteq> [] \<longleftrightarrow> trim (replaceRx line checkboxRx (\<lambda>caps. [])) \<noteq> []"
    by (simp add: taskLine_def Let_def)
  have 5: "paragraphLine line \<noteq> [] \<longleftrightarrow> trim (replaceRx line bulletRx (\<lambda>caps. [])) \<noteq> []"
    by (simp add: paragraphLine_def Let_def)
  have a: "contentBlocks title (pre @ [w1] @ post)
             = contentBlocks title pre @ contentBlocks title post"
    by (simp only: contentBlocks_append 1 append_Nil)
  have b: "includesStr title (js ''Compromisos y tareas'') \<longrightarrow>
          contentBlocks title (pre @ [w1 @ js ''[ ]'' @ w2] @ post)
            = contentBlocks title pre @ contentBlocks title post"
  proof
    assume "includesStr title (js ''Compromisos y tareas'')"
    from 2 [OF this] show "contentBlocks title (pre @ [w1 @ js ''[ ]'' @ w2] @ post)
            = contentBlocks title pre @ contentBlocks title post"
      by (simp only: contentBlocks_append append_Nil)
  qed
  have c: "\<not> includesStr title (js ''Compromisos y tareas'') \<longrightarrow>
          contentBlocks title (pre @ [w1 @ [b] @ w2] @ post)
            = contentBlocks title pre @ contentBlocks title post"
  proof
    assume "\<not> includesStr title (js ''Compromisos y tareas'')"
    from 3 [OF this] show "contentBlocks title (pre @ [w1 @ [b] @ w2] @ post)
            = contentBlocks title pre @ contentBlocks title post"
      by (simp only: contentBlocks_append append_Nil)
  qed
  show ?thesis using a b c 4 5 by blast
qed

theorem C10_no_text_no_block_witness:
  "list_all isWhiteSpace (js '' '') \<and> list_all isWhiteSpace (js ''  '')
   \<and> contentBlocks (js ''3. Temas'') [js ''a'', js '' '', js ''b'']
       = contentBlocks (js ''3. Temas'') [js ''a''] @ contentBlocks (js ''3. Temas'') [js ''b'']
   \<and> includesStr (js ''5. Compromisos y tareas'') (js ''Compromisos y tareas'')
   \<and> contentBlocks (js ''5. Compromisos y tareas'') [js '' [ ]  ''] = []
   \<and> \<not> includesStr (js ''3. Temas'') (js ''Compromisos y tareas'')
   \<and> contentBlocks (js ''3. Temas'') [js '' *  ''] = []"
  using C10_no_text_no_block [of "js '' ''" "js ''  ''" "0x2A" "js ''3. Temas''" "[js ''a'']" "[js ''b'']"]
    C10_no_text_no_block [of "js '' ''" "js ''  ''" "0x2A" "js ''5. Compromisos y tareas''" "[]" "[]"]
    C10_no_text_no_block [of "js '' ''" "js ''  ''" "0x2A" "js ''3. Temas''" "[]" "[]"]
  by (simp add: contentBlocks_Nil js_def isWhiteSpace_def isLineTerminator_def)


section \<open>Facts about the bold markers\<close>























section \<open>Facts about the title pattern\<close>



































end
